theory Spec2Isabelle
  imports Complex_Main "HOL-Library.Sublist" "HOL-Library.Monad_Syntax"
begin

section \<open>Data model\<close>

text \<open>
  The error taxonomy of the pipeline. Every exception an operation can raise is a value
  \<open>Inl e\<close> of a sum type; the string carries the message (a field name, a path).
\<close>

datatype error =
    ValidationError string
  | FetchError string
  | ParseError string
  | CorruptStateError string
  | IOError string

type_synonym path = string

text \<open>
  A timezone-aware UTC instant, field by field as Python's \<open>datetime\<close> holds it.
\<close>

record timestamp =
  year :: nat
  month :: nat
  day :: nat
  hour :: nat
  minute :: nat
  second :: nat
  microsecond :: nat

text \<open>
  Modelled from the spec: the class \<open>ProductSnapshot\<close> (module \<open>scraper.models\<close>,
  imported by \<open>run.py\<close>) is not among the sources. The fields are those of the data
  model: product key, title, price with currency, url, the instant of observation and
  the optional opaque attributes. The price is an exact number; the field \<open>url\<close> is
  called \<open>source_url\<close> here.
\<close>

record snapshot =
  product_key :: string
  title :: string
  price :: rat
  currency :: string
  source_url :: string
  scraped_at :: timestamp
  availability :: "string option"
  condition :: "string option"

section \<open>Deduplicator\<close>

text \<open>
  Modelled from the spec: the dedup key. Snapshots of one product with one
  \<open>scraped_at\<close> are one observation; an exact \<open>(product_key, price, scraped_at)\<close>
  match is a special case of that.
\<close>

definition snapshot_key :: "snapshot \<Rightarrow> string \<times> timestamp" where
  "snapshot_key s = (product_key s, scraped_at s)"

text \<open>
  Modelled from the spec: one pass over the rows with the set of keys seen so far; a
  row is kept when its key is new, so the first occurrence wins and the order stays.
\<close>

fun dedupe_loop :: "('a \<Rightarrow> 'k) \<Rightarrow> 'k set \<Rightarrow> 'a list \<Rightarrow> 'a list" where
  "dedupe_loop key seen [] = []"
| "dedupe_loop key seen (r # rows) =
     (if key r \<in> seen then dedupe_loop key seen rows
      else r # dedupe_loop key (insert (key r) seen) rows)"

text \<open>
  Modelled from the spec: \<open>scraper.pipeline.dedupe.dedupe_snapshots\<close> is imported by
  \<open>run.py\<close> but not among the sources. Only the first occurrence per
  \<open>(product_key, scraped_at)\<close> pair is retained, in input order.
\<close>

definition dedupe_snapshots :: "snapshot list \<Rightarrow> snapshot list" where
  "dedupe_snapshots rows = dedupe_loop snapshot_key {} rows"

section \<open>Pipeline orchestrator (\<open>scraper/pipeline/run.py\<close>)\<close>

text \<open>
  \<open>run_pipeline\<close> calls six operations that \<open>run.py\<close> imports from modules that
  are not among the sources: the extractor's \<open>fetch\<close>, the store's
  \<open>read_json_if_exists\<close>, \<open>write_json\<close> and \<open>write_csv\<close>, the model's
  \<open>model_validate\<close> and \<open>dedupe_snapshots\<close>. They are parameters of the model. An
  operation with an effect takes the world \<open>'w\<close> and returns its outcome with the world
  it leaves behind, also when it raises; validation and deduplication are pure.
\<close>

record ('w, 'd, 'a) collaborators =
  c_fetch :: "string \<Rightarrow> 'w \<Rightarrow> (error + 'a list) \<times> 'w"
  c_read_json_if_exists :: "path \<Rightarrow> 'w \<Rightarrow> (error + 'd list) \<times> 'w"
  c_model_validate :: "'d \<Rightarrow> error + 'a"
  c_dedupe_snapshots :: "'a list \<Rightarrow> 'a list"
  c_write_json :: "path \<Rightarrow> 'a list \<Rightarrow> 'w \<Rightarrow> (error + unit) \<times> 'w"
  c_write_csv :: "path \<Rightarrow> 'a list \<Rightarrow> 'w \<Rightarrow> (error + unit) \<times> 'w"

text \<open>\<open>_dict_to_snapshot(d)\<close>: \<open>ProductSnapshot.model_validate(d)\<close>.\<close>

definition dict_to_snapshot :: "('w, 'd, 'a) collaborators \<Rightarrow> 'd \<Rightarrow> error + 'a" where
  "dict_to_snapshot c d = c_model_validate c d"

text \<open>
  The comprehension \<open>[_dict_to_snapshot(d) for d in existing_dicts]\<close>: left to right,
  the first record that fails validation raises.
\<close>

fun existing_rows_of :: "('d \<Rightarrow> error + 'a) \<Rightarrow> 'd list \<Rightarrow> error + 'a list" where
  "existing_rows_of f [] = Inr []"
| "existing_rows_of f (d # ds) =
     (case f d of
        Inl e \<Rightarrow> Inl e
      | Inr row \<Rightarrow>
          (case existing_rows_of f ds of
             Inl e \<Rightarrow> Inl e
           | Inr rows \<Rightarrow> Inr (row # rows)))"

text \<open>
  \<open>run_pipeline(base_url, out_csv, out_json)\<close>, statement by statement. There is no
  \<open>try\<close> in the source: an exception of any call ends the run there, with the world as
  that call left it.
\<close>

definition run_pipeline ::
  "('w, 'd, 'a) collaborators \<Rightarrow> string \<Rightarrow> path \<Rightarrow> path \<Rightarrow> 'w \<Rightarrow> (error + 'a list) \<times> 'w" where
  "run_pipeline c base_url out_csv out_json w0 =
     (case c_fetch c base_url w0 of
        (Inl e, w1) \<Rightarrow> (Inl e, w1)
      | (Inr new_rows, w1) \<Rightarrow>
     (case c_read_json_if_exists c out_json w1 of
        (Inl e, w2) \<Rightarrow> (Inl e, w2)
      | (Inr existing_dicts, w2) \<Rightarrow>
     (case existing_rows_of (dict_to_snapshot c) existing_dicts of
        Inl e \<Rightarrow> (Inl e, w2)
      | Inr existing_rows \<Rightarrow>
     (let combined = existing_rows @ new_rows;
          combined = c_dedupe_snapshots c combined
      in
     (case c_write_json c out_json combined w2 of
        (Inl e, w3) \<Rightarrow> (Inl e, w3)
      | (Inr _, w3) \<Rightarrow>
     (case c_write_csv c out_csv combined w3 of
        (Inl e, w4) \<Rightarrow> (Inl e, w4)
      | (Inr _, w4) \<Rightarrow> (Inr combined, w4)))))))"

text \<open>
  Recording collaborators: the same operations, each noting its call (with its
  arguments) at the end of a log kept beside the world, before anything else can happen.
  Running the pipeline on them shows which operations it called, and in which order.
\<close>

datatype 'a call =
    Call_fetch string
  | Call_read_json path
  | Call_write_json path "'a list"
  | Call_write_csv path "'a list"

definition logged :: "'a call \<Rightarrow> ('w \<Rightarrow> 'r \<times> 'w) \<Rightarrow> 'w \<times> 'a call list \<Rightarrow> 'r \<times> 'w \<times> 'a call list" where
  "logged ev f = (\<lambda>(w, calls). case f w of (r, w') \<Rightarrow> (r, (w', calls @ [ev])))"

definition recording ::
  "('w, 'd, 'a) collaborators \<Rightarrow> ('w \<times> 'a call list, 'd, 'a) collaborators" where
  "recording c =
     \<lparr> c_fetch = (\<lambda>base_url. logged (Call_fetch base_url) (c_fetch c base_url)),
       c_read_json_if_exists = (\<lambda>p. logged (Call_read_json p) (c_read_json_if_exists c p)),
       c_model_validate = c_model_validate c,
       c_dedupe_snapshots = c_dedupe_snapshots c,
       c_write_json = (\<lambda>p rows. logged (Call_write_json p rows) (c_write_json c p rows)),
       c_write_csv = (\<lambda>p rows. logged (Call_write_csv p rows) (c_write_csv c p rows)) \<rparr>"

section \<open>Fetch collaborator (\<open>scraper/http_client.py\<close>)\<close>

text \<open>
  The transport is the \<open>httpx\<close> client: \<open>client.get(url)\<close> either raises (a timeout,
  a connection failure) or returns the final response, redirects followed. It is a
  parameter, given the headers, the timeout and the redirect flag the source configures.
\<close>

datatype http_error =
    TimeoutException
  | TransportError string
  | HTTPStatusError nat

record response =
  status_code :: nat
  response_text :: string

definition headers :: "(string \<times> string) list" where
  "headers =
     [(''User-Agent'', ''iphone-price-monitor/1.0 (+https://github.com/your-handle)''),
      (''Accept'', ''text/html,application/xhtml+xml'')]"

text \<open>\<open>Response.is_success\<close> and \<open>Response.raise_for_status()\<close> of \<open>httpx\<close>.\<close>

definition is_success :: "response \<Rightarrow> bool" where
  "is_success r = (200 \<le> status_code r \<and> status_code r \<le> 299)"

definition raise_for_status :: "response \<Rightarrow> http_error + response" where
  "raise_for_status r = (if is_success r then Inr r else Inl (HTTPStatusError (status_code r)))"

definition get_html ::
  "((string \<times> string) list \<Rightarrow> 't \<Rightarrow> bool \<Rightarrow> string \<Rightarrow> http_error + response) \<Rightarrow>
   string \<Rightarrow> 't \<Rightarrow> http_error + string" where
  "get_html client_get url timeout_s =
     (case client_get headers timeout_s True url of
        Inl e \<Rightarrow> Inl e
      | Inr r \<Rightarrow>
          (case raise_for_status r of
             Inl e \<Rightarrow> Inl e
           | Inr _ \<Rightarrow> Inr (response_text r)))"

section \<open>Snapshot model: serialisation and validation\<close>

text \<open>
  Modelled from the spec: \<open>ProductSnapshot\<close> and its \<open>model_dump\<close> and
  \<open>model_validate\<close> are not among the sources. The serialised form is a field-for-field
  mapping of JSON values: strings and numbers as they are, the instant as an ISO-8601
  string with the UTC designator, an absent optional attribute as \<open>null\<close>. Validation
  rejects a missing or empty product key, a negative price and an unparsable instant;
  every other missing field takes its default, a missing instant the current time.
\<close>

datatype json =
    JNull
  | JBool bool
  | JNum rat
  | JStr string
  | JArr "json list"
  | JObj "(string \<times> json) list"

type_synonym dict = "(string \<times> json) list"

definition and_then :: "'e + 'a \<Rightarrow> ('a \<Rightarrow> 'e + 'b) \<Rightarrow> 'e + 'b" where
  "and_then r f = (case r of Inl e \<Rightarrow> Inl e | Inr x \<Rightarrow> f x)"

subsection \<open>ISO-8601 text of an instant\<close>

definition digit_char :: "nat \<Rightarrow> char" where
  "digit_char d = ''0123456789'' ! d"

definition digit_value :: "char \<Rightarrow> nat option" where
  "digit_value c = map_of (zip ''0123456789'' [0..<10]) c"

text \<open>\<open>pad_digits w n\<close>: the last \<open>w\<close> decimal digits of \<open>n\<close>, zero-padded (\<open>%0wd\<close>).\<close>

fun pad_digits :: "nat \<Rightarrow> nat \<Rightarrow> string" where
  "pad_digits 0 n = []"
| "pad_digits (Suc w) n = digit_char (n div 10 ^ w mod 10) # pad_digits w n"

definition isoformat :: "timestamp \<Rightarrow> string" where
  "isoformat t =
     pad_digits 4 (year t) @ ''-'' @ pad_digits 2 (month t) @ ''-'' @ pad_digits 2 (day t) @
     ''T'' @ pad_digits 2 (hour t) @ '':'' @ pad_digits 2 (minute t) @ '':'' @
     pad_digits 2 (second t) @
     (if microsecond t = 0 then [] else ''.'' @ pad_digits 6 (microsecond t)) @ ''Z''"

text \<open>Reading: \<open>w\<close> digits, one expected character, the optional fraction, the zone.\<close>

fun read_digits :: "nat \<Rightarrow> nat \<Rightarrow> string \<Rightarrow> (nat \<times> string) option" where
  "read_digits 0 acc s = Some (acc, s)"
| "read_digits (Suc w) acc [] = None"
| "read_digits (Suc w) acc (c # cs) =
     (case digit_value c of
        None \<Rightarrow> None
      | Some d \<Rightarrow> read_digits w (10 * acc + d) cs)"

fun expect_char :: "char \<Rightarrow> string \<Rightarrow> string option" where
  "expect_char c [] = None"
| "expect_char c (x # xs) = (if x = c then Some xs else None)"

fun read_fraction :: "string \<Rightarrow> (nat \<times> string) option" where
  "read_fraction [] = Some (0, [])"
| "read_fraction (c # cs) = (if c = CHR ''.'' then read_digits 6 0 cs else Some (0, c # cs))"

definition is_utc_zone :: "string \<Rightarrow> bool" where
  "is_utc_zone s = (s = ''Z'' \<or> s = ''+00:00'')"

definition is_leap :: "nat \<Rightarrow> bool" where
  "is_leap y = (y mod 4 = 0 \<and> (y mod 100 \<noteq> 0 \<or> y mod 400 = 0))"

definition days_in_month :: "nat \<Rightarrow> nat \<Rightarrow> nat" where
  "days_in_month y m =
     (if m = 2 then (if is_leap y then 29 else 28)
      else if m = 4 \<or> m = 6 \<or> m = 9 \<or> m = 11 then 30
      else 31)"

definition valid_timestamp :: "timestamp \<Rightarrow> bool" where
  "valid_timestamp t =
     (1 \<le> year t \<and> year t \<le> 9999 \<and> 1 \<le> month t \<and> month t \<le> 12 \<and>
      1 \<le> day t \<and> day t \<le> days_in_month (year t) (month t) \<and>
      hour t < 24 \<and> minute t < 60 \<and> second t < 60 \<and> microsecond t < 1000000)"

definition fromisoformat :: "string \<Rightarrow> timestamp option" where
  "fromisoformat s0 = do {
     (y, s1) \<leftarrow> read_digits 4 0 s0;
     s2 \<leftarrow> expect_char CHR ''-'' s1;
     (m, s3) \<leftarrow> read_digits 2 0 s2;
     s4 \<leftarrow> expect_char CHR ''-'' s3;
     (d, s5) \<leftarrow> read_digits 2 0 s4;
     s6 \<leftarrow> expect_char CHR ''T'' s5;
     (h, s7) \<leftarrow> read_digits 2 0 s6;
     s8 \<leftarrow> expect_char CHR '':'' s7;
     (mi, s9) \<leftarrow> read_digits 2 0 s8;
     s10 \<leftarrow> expect_char CHR '':'' s9;
     (sec, s11) \<leftarrow> read_digits 2 0 s10;
     (us, s12) \<leftarrow> read_fraction s11;
     let t = \<lparr> year = y, month = m, day = d, hour = h, minute = mi, second = sec,
               microsecond = us \<rparr>;
     if is_utc_zone s12 \<and> valid_timestamp t then Some t else None
   }"

subsection \<open>The field-for-field mapping\<close>

definition json_of_optional :: "string option \<Rightarrow> json" where
  "json_of_optional v = (case v of None \<Rightarrow> JNull | Some s \<Rightarrow> JStr s)"

text \<open>
  Modelled from the spec: \<open>ProductSnapshot.model_dump\<close>, the mapping from each field
  name to its JSON value.
\<close>

definition model_dump :: "snapshot \<Rightarrow> dict" where
  "model_dump s =
     [(''product_key'', JStr (product_key s)),
      (''title'', JStr (title s)),
      (''price'', JNum (price s)),
      (''currency'', JStr (currency s)),
      (''url'', JStr (source_url s)),
      (''scraped_at'', JStr (isoformat (scraped_at s))),
      (''availability'', json_of_optional (availability s)),
      (''condition'', json_of_optional (condition s))]"

definition field_names :: "string list" where
  "field_names =
     [''product_key'', ''title'', ''price'', ''currency'', ''url'', ''scraped_at'',
      ''availability'', ''condition'']"

text \<open>
  Modelled from the spec: how validation reads each field. A field of the wrong JSON
  type is a \<open>ValidationError\<close> naming the field.
\<close>

definition required_key :: "dict \<Rightarrow> error + string" where
  "required_key d =
     (case map_of d ''product_key'' of
        Some (JStr k) \<Rightarrow> if k = [] then Inl (ValidationError ''product_key'') else Inr k
      | _ \<Rightarrow> Inl (ValidationError ''product_key''))"

definition string_field :: "dict \<Rightarrow> string \<Rightarrow> error + string" where
  "string_field d name =
     (case map_of d name of
        None \<Rightarrow> Inr []
      | Some (JStr s) \<Rightarrow> Inr s
      | Some _ \<Rightarrow> Inl (ValidationError name))"

definition optional_field :: "dict \<Rightarrow> string \<Rightarrow> error + string option" where
  "optional_field d name =
     (case map_of d name of
        None \<Rightarrow> Inr None
      | Some JNull \<Rightarrow> Inr None
      | Some (JStr s) \<Rightarrow> Inr (Some s)
      | Some _ \<Rightarrow> Inl (ValidationError name))"

definition price_field :: "dict \<Rightarrow> error + rat" where
  "price_field d =
     (case map_of d ''price'' of
        None \<Rightarrow> Inr 0
      | Some (JNum p) \<Rightarrow> if 0 \<le> p then Inr p else Inl (ValidationError ''price'')
      | Some _ \<Rightarrow> Inl (ValidationError ''price''))"

definition instant_field :: "timestamp \<Rightarrow> dict \<Rightarrow> error + timestamp" where
  "instant_field now d =
     (case map_of d ''scraped_at'' of
        None \<Rightarrow> Inr now
      | Some (JStr s) \<Rightarrow>
          (case fromisoformat s of
             None \<Rightarrow> Inl (ValidationError ''scraped_at'')
           | Some t \<Rightarrow> Inr t)
      | Some _ \<Rightarrow> Inl (ValidationError ''scraped_at''))"

text \<open>
  Modelled from the spec: \<open>ProductSnapshot.model_validate\<close>, with the current time
  \<open>now\<close> for a mapping that has no instant.
\<close>

definition model_validate :: "timestamp \<Rightarrow> dict \<Rightarrow> error + snapshot" where
  "model_validate now d =
     and_then (required_key d) (\<lambda>k.
     and_then (string_field d ''title'') (\<lambda>t.
     and_then (price_field d) (\<lambda>p.
     and_then (string_field d ''currency'') (\<lambda>c.
     and_then (string_field d ''url'') (\<lambda>u.
     and_then (instant_field now d) (\<lambda>ts.
     and_then (optional_field d ''availability'') (\<lambda>av.
     and_then (optional_field d ''condition'') (\<lambda>co.
       Inr \<lparr> product_key = k, title = t, price = p, currency = c, source_url = u,
             scraped_at = ts, availability = av, condition = co \<rparr>))))))))"

text \<open>What the type guarantees of every snapshot that was constructed through validation.\<close>

definition valid_snapshot :: "snapshot \<Rightarrow> bool" where
  "valid_snapshot s =
     (product_key s \<noteq> [] \<and> 0 \<le> price s \<and> valid_timestamp (scraped_at s))"

section \<open>History store\<close>

text \<open>
  Modelled from the spec: \<open>scraper.storage.json_store\<close> and
  \<open>scraper.storage.csv_store\<close> are not among the sources. The file I/O is get and put
  of an ordered record collection: a file holds a JSON document, a CSV table (the header
  and one row of cells per snapshot) or anything else. Reading a path with no file gives
  the empty sequence; a file that is not a JSON array of objects is a
  \<open>CorruptStateError\<close>. A write replaces the whole file, or raises \<open>IOError\<close> and
  leaves the file as it was when the path cannot be written (\<open>locked\<close>).
\<close>

datatype stored_file =
    Json_file json
  | Csv_file "string list" "json list list"
  | Other_file string

record world =
  files :: "path \<Rightarrow> stored_file option"
  locked :: "path set"

definition is_object :: "json \<Rightarrow> bool" where
  "is_object v = (case v of JObj _ \<Rightarrow> True | _ \<Rightarrow> False)"

definition object_fields :: "json \<Rightarrow> dict" where
  "object_fields v = (case v of JObj kvs \<Rightarrow> kvs | _ \<Rightarrow> [])"


text \<open>
  Modelled from the spec: \<open>read_json_if_exists\<close>, the stored mappings in order; no
  file is the empty sequence, anything but a JSON array of objects is a
  \<open>CorruptStateError\<close>.
\<close>

definition read_json_if_exists :: "path \<Rightarrow> world \<Rightarrow> error + dict list" where
  "read_json_if_exists p w =
     (case files w p of
        None \<Rightarrow> Inr []
      | Some f \<Rightarrow>
          (case f of
             Json_file (JArr vs) \<Rightarrow>
               if list_all is_object vs then Inr (map object_fields vs)
               else Inl (CorruptStateError p)
           | _ \<Rightarrow> Inl (CorruptStateError p)))"

text \<open>
  Modelled from the spec: a write replaces the file at the path as a whole, or raises
  and changes nothing.
\<close>

definition put_file :: "path \<Rightarrow> stored_file \<Rightarrow> world \<Rightarrow> (error + unit) \<times> world" where
  "put_file p f w =
     (if p \<in> locked w then (Inl (IOError p), w)
      else (Inr (), w\<lparr>files := (files w)(p \<mapsto> f)\<rparr>))"

definition history_file :: "snapshot list \<Rightarrow> stored_file" where
  "history_file rows = Json_file (JArr (map (\<lambda>s. JObj (model_dump s)) rows))"

definition table_file :: "snapshot list \<Rightarrow> stored_file" where
  "table_file rows = Csv_file field_names (map (\<lambda>s. map snd (model_dump s)) rows)"

text \<open>
  Modelled from the spec: \<open>write_json\<close> and \<open>write_csv\<close>, the full collection in
  order, as a JSON array of the mappings and as a table with one row per snapshot.
\<close>

definition write_json :: "path \<Rightarrow> snapshot list \<Rightarrow> world \<Rightarrow> (error + unit) \<times> world" where
  "write_json p rows w = put_file p (history_file rows) w"

definition write_csv :: "path \<Rightarrow> snapshot list \<Rightarrow> world \<Rightarrow> (error + unit) \<times> world" where
  "write_csv p rows w = put_file p (table_file rows) w"

text \<open>
  \<open>load\<close>: the history at a path as \<open>run_pipeline\<close> obtains it, the stored mappings
  read and each one validated.
\<close>

definition load :: "timestamp \<Rightarrow> path \<Rightarrow> world \<Rightarrow> error + snapshot list" where
  "load now p w =
     and_then (read_json_if_exists p w) (existing_rows_of (model_validate now))"

text \<open>
  The collaborators of a run on this store: the outcome of the extractor for each
  catalog address is given (\<open>extractor\<close>), as is the current time; neither the
  extractor nor a read changes a file.
\<close>

definition store_env ::
  "timestamp \<Rightarrow> (string \<Rightarrow> error + snapshot list) \<Rightarrow> (world, dict, snapshot) collaborators" where
  "store_env now extractor =
     \<lparr> c_fetch = (\<lambda>base_url w. (extractor base_url, w)),
       c_read_json_if_exists = (\<lambda>p w. (read_json_if_exists p w, w)),
       c_model_validate = model_validate now,
       c_dedupe_snapshots = dedupe_snapshots,
       c_write_json = write_json,
       c_write_csv = write_csv \<rparr>"

section \<open>A catalog, some observations and some stores\<close>

text \<open>Concrete data on which the statements below are exercised.\<close>

definition catalog_url :: string where
  "catalog_url = ''https://andres-torrez.github.io/iphone-catalog/''"

definition t1 :: timestamp where
  "t1 = \<lparr> year = 2024, month = 1, day = 1, hour = 0, minute = 0, second = 0, microsecond = 0 \<rparr>"

definition t2 :: timestamp where
  "t2 = \<lparr> year = 2024, month = 1, day = 2, hour = 6, minute = 30, second = 0,
          microsecond = 250000 \<rparr>"

definition iphone_t1 :: snapshot where
  "iphone_t1 =
     \<lparr> product_key = ''iphone-15-128'', title = ''iPhone 15 128GB'', price = 799,
       currency = ''USD'', source_url = catalog_url, scraped_at = t1,
       availability = Some ''in stock'', condition = None \<rparr>"

definition iphone_t2 :: snapshot where
  "iphone_t2 = iphone_t1\<lparr>price := 779, scraped_at := t2\<rparr>"

definition iphone_t2_relisted :: snapshot where
  "iphone_t2_relisted = iphone_t2\<lparr>title := ''IPHONE 15 128GB''\<rparr>"

definition iphone16_t1 :: snapshot where
  "iphone16_t1 =
     \<lparr> product_key = ''iphone-16-256'', title = ''iPhone 16 256GB'', price = 999,
       currency = ''USD'', source_url = catalog_url, scraped_at = t1,
       availability = None, condition = Some ''new'' \<rparr>"

definition iphone16_t2 :: snapshot where
  "iphone16_t2 = iphone16_t1\<lparr>price := 979, scraped_at := t2\<rparr>"

definition catalog_of :: "snapshot list \<Rightarrow> string \<Rightarrow> error + snapshot list" where
  "catalog_of rows base_url =
     (if base_url = catalog_url then Inr rows else Inl (FetchError base_url))"

definition catalog :: "string \<Rightarrow> error + snapshot list" where
  "catalog base_url =
     (if base_url = catalog_url then Inr [iphone_t2] else Inl (FetchError base_url))"

definition store_of :: "stored_file \<Rightarrow> path set \<Rightarrow> world" where
  "store_of f ro = \<lparr> files = [''history.json'' \<mapsto> f], locked = ro \<rparr>"

definition empty_store :: world where
  "empty_store = \<lparr> files = Map.empty, locked = {} \<rparr>"


definition missing_key_file :: stored_file where
  "missing_key_file = Json_file (JArr [JObj [(''title'', JStr ''iPhone 15 128GB'')]])"

text \<open>
  A first run, on the empty store, at \<open>t1\<close>: it fetches two products and leaves them
  as the history.
\<close>

definition first_run :: "(error + snapshot list) \<times> world" where
  "first_run =
     run_pipeline (store_env t1 (catalog_of [iphone_t1, iphone16_t1])) catalog_url
       ''history.csv'' ''history.json'' empty_store"


section \<open>Properties of the deduplicator\<close>

lemma dedupe_loop_keys_fresh:
  "key ` set (dedupe_loop key seen xs) \<inter> seen = {}"
  by (induction xs arbitrary: seen) auto

lemma dedupe_loop_distinct:
  "distinct (map key (dedupe_loop key seen xs))"
proof (induction xs arbitrary: seen)
  case Nil
  show ?case by simp
next
  case (Cons x xs)
  have "key x \<notin> key ` set (dedupe_loop key (insert (key x) seen) xs)"
    using dedupe_loop_keys_fresh [of key "insert (key x) seen" xs] by auto
  with Cons show ?case by simp
qed

lemma dedupe_loop_fixpoint:
  "distinct (map key xs) \<Longrightarrow> key ` set xs \<inter> seen = {} \<Longrightarrow> dedupe_loop key seen xs = xs"
proof (induction xs arbitrary: seen)
  case Nil
  show ?case by simp
next
  case (Cons x xs)
  from Cons.prems have fresh: "key x \<notin> seen" by auto
  from Cons.prems have "distinct (map key xs)" by simp
  moreover from Cons.prems have "key ` set xs \<inter> insert (key x) seen = {}" by auto
  ultimately have "dedupe_loop key (insert (key x) seen) xs = xs" by (rule Cons.IH)
  with fresh show ?case by simp
qed

lemma dedupe_loop_subseq: "subseq (dedupe_loop key seen xs) xs"
  by (induction xs arbitrary: seen) auto

lemma dedupe_loop_first_occurrences:
  "dedupe_loop key seen xs =
     map ((!) xs) (filter (\<lambda>i. key (xs ! i) \<notin> seen \<union> key ` set (take i xs)) [0..<length xs])"
proof (induction xs arbitrary: seen)
  case Nil
  show ?case by simp
next
  case (Cons x xs)
  have idx: "[0..<length (x # xs)] = 0 # map Suc [0..<length xs]"
    by (simp add: upt_conv_Cons map_Suc_upt del: upt_Suc)
  have tl: "map ((!) (x # xs))
              (filter (\<lambda>i. key ((x # xs) ! i) \<notin> seen \<union> key ` set (take i (x # xs)))
                (map Suc [0..<length xs])) =
            map ((!) xs)
              (filter (\<lambda>i. key (xs ! i) \<notin> insert (key x) seen \<union> key ` set (take i xs))
                [0..<length xs])"
    by (auto simp: filter_map comp_def intro!: arg_cong [where f = "map ((!) xs)"] filter_cong)
  show ?case
  proof (cases "key x \<in> seen")
    case True
    then have "insert (key x) seen = seen" by auto
    with True Cons.IH [of seen] show ?thesis
      unfolding idx using tl by simp
  next
    case False
    with Cons.IH [of "insert (key x) seen"] show ?thesis
      unfolding idx using tl by simp
  qed
qed

lemma dedupe_loop_append:
  "dedupe_loop key seen (xs @ ys) =
     dedupe_loop key seen xs @ dedupe_loop key (seen \<union> key ` set xs) ys"
  by (induction xs arbitrary: seen) (simp_all add: insert_absorb)

lemma dedupe_loop_other_keys:
  "key ` set ys \<inter> K = {} \<Longrightarrow> dedupe_loop key (seen \<union> K) ys = dedupe_loop key seen ys"
proof (induction ys arbitrary: seen)
  case Nil
  show ?case by simp
next
  case (Cons y ys)
  from Cons.prems have y: "key y \<notin> K" and rest: "key ` set ys \<inter> K = {}" by auto
  from Cons.IH [OF rest, of "insert (key y) seen"] Cons.IH [OF rest, of seen] y
  show ?case by simp
qed

lemma dedupe_snapshots_merge:
  assumes "distinct (map snapshot_key H)"
    and "scraped_at ` set F \<inter> scraped_at ` set H = {}"
  shows "dedupe_snapshots (H @ F) = H @ dedupe_snapshots F"
proof -
  have keys: "snapshot_key ` set F \<inter> snapshot_key ` set H = {}"
    using assms(2) by (auto simp: snapshot_key_def)
  have "dedupe_loop snapshot_key {} H = H"
    using assms(1) by (simp add: dedupe_loop_fixpoint)
  moreover have "dedupe_loop snapshot_key ({} \<union> snapshot_key ` set H) F =
      dedupe_loop snapshot_key {} F"
    using keys by (rule dedupe_loop_other_keys)
  ultimately show ?thesis
    by (simp add: dedupe_snapshots_def dedupe_loop_append)
qed

text \<open>
  C4. The deduplicator is idempotent: deduplicating an already deduplicated sequence
  changes nothing.
\<close>

theorem dedupe_snapshots_idempotent:
  "dedupe_snapshots (dedupe_snapshots S) = dedupe_snapshots S"
  unfolding dedupe_snapshots_def
  by (rule dedupe_loop_fixpoint) (simp_all add: dedupe_loop_distinct)

text \<open>
  C5. The deduplicator never reorders: its output is a subsequence of its input, namely
  the elements at the positions where a key occurs for the first time, in increasing
  position.
\<close>

theorem dedupe_snapshots_order:
  "subseq (dedupe_snapshots S) S \<and>
   dedupe_snapshots S =
     map ((!) S)
       (filter (\<lambda>i. snapshot_key (S ! i) \<notin> snapshot_key ` set (take i S)) [0..<length S])"
  unfolding dedupe_snapshots_def
  using dedupe_loop_subseq [of snapshot_key "{}" S]
        dedupe_loop_first_occurrences [of snapshot_key "{}" S]
  by simp

section \<open>Properties of the serialisation\<close>

lemma digit_value_digit_char: "d < 10 \<Longrightarrow> digit_value (digit_char d) = Some d"
proof -
  assume "d < 10"
  then have "d = 0 \<or> d = 1 \<or> d = 2 \<or> d = 3 \<or> d = 4 \<or> d = 5 \<or> d = 6 \<or> d = 7 \<or> d = 8 \<or> d = 9"
    by arith
  then show ?thesis
    by (elim disjE) (simp_all add: digit_value_def digit_char_def upt_conv_Cons)
qed

lemma read_digits_pad_digits:
  "read_digits w acc (pad_digits w n @ rest) = Some (acc * 10 ^ w + n mod 10 ^ w, rest)"
proof (induction w arbitrary: acc)
  case 0
  show ?case by simp
next
  case (Suc w)
  have "n mod (10 ^ w * 10) = 10 ^ w * (n div 10 ^ w mod 10) + n mod 10 ^ w"
    by (rule mod_mult2_eq)
  then have split: "n mod (10 * 10 ^ w) = 10 ^ w * (n div 10 ^ w mod 10) + n mod 10 ^ w"
    by (simp add: mult.commute)
  show ?case
    by (simp add: digit_value_digit_char Suc.IH split algebra_simps)
qed

lemma read_digits_pad_small:
  "n < 10 ^ w \<Longrightarrow> read_digits w 0 (pad_digits w n @ rest) = Some (n, rest)"
  by (simp add: read_digits_pad_digits)

lemma days_in_month_le: "days_in_month y m \<le> 31"
  by (simp add: days_in_month_def)

lemma fromisoformat_isoformat:
  assumes "valid_timestamp t"
  shows "fromisoformat (isoformat t) = Some t"
proof -
  from assms have b: "year t < 10 ^ 4" "month t < 10 ^ 2" "day t < 10 ^ 2" "hour t < 10 ^ 2"
    "minute t < 10 ^ 2" "second t < 10 ^ 2" "microsecond t < 10 ^ 6"
    using days_in_month_le [of "year t" "month t"]
    by (simp_all add: valid_timestamp_def)
  have frac: "read_fraction ((if microsecond t = 0 then [] else ''.'' @ pad_digits 6 (microsecond t)) @ ''Z'')
      = Some (microsecond t, ''Z'')"
    using read_digits_pad_small [OF b(7), of "''Z''"] by simp
  have whole: "\<lparr>year = year t, month = month t, day = day t, hour = hour t,
      minute = minute t, second = second t, microsecond = microsecond t\<rparr> = t"
    by (cases t) simp
  show ?thesis
    unfolding fromisoformat_def isoformat_def
    using assms frac whole
    by (simp add: read_digits_pad_small [OF b(1)] read_digits_pad_small [OF b(2)]
        read_digits_pad_small [OF b(3)] read_digits_pad_small [OF b(4)]
        read_digits_pad_small [OF b(5)] read_digits_pad_small [OF b(6)] is_utc_zone_def Let_def valid_timestamp_def
        del: pad_digits.simps)
qed

lemma model_validate_model_dump:
  assumes "valid_snapshot s"
  shows "model_validate now (model_dump s) = Inr s"
proof -
  from assms have ts: "fromisoformat (isoformat (scraped_at s)) = Some (scraped_at s)"
    by (simp add: valid_snapshot_def fromisoformat_isoformat)
  from assms have k: "product_key s \<noteq> []" and p: "0 \<le> price s"
    by (simp_all add: valid_snapshot_def)
  have av: "optional_field (model_dump s) ''availability'' = Inr (availability s)"
    by (simp add: optional_field_def model_dump_def json_of_optional_def split: option.split)
  have co: "optional_field (model_dump s) ''condition'' = Inr (condition s)"
    by (simp add: optional_field_def model_dump_def json_of_optional_def split: option.split)
  have rk: "required_key (model_dump s) = Inr (product_key s)"
    using k by (simp add: required_key_def model_dump_def)
  have ti: "string_field (model_dump s) ''title'' = Inr (title s)"
    by (simp add: string_field_def model_dump_def)
  have cu: "string_field (model_dump s) ''currency'' = Inr (currency s)"
    by (simp add: string_field_def model_dump_def)
  have ur: "string_field (model_dump s) ''url'' = Inr (source_url s)"
    by (simp add: string_field_def model_dump_def)
  have pr: "price_field (model_dump s) = Inr (price s)"
    using p by (simp add: price_field_def model_dump_def)
  have at: "instant_field now (model_dump s) = Inr (scraped_at s)"
    using ts by (simp add: instant_field_def model_dump_def)
  show ?thesis
    unfolding model_validate_def
    by (simp add: and_then_def rk ti cu ur pr at av co)
qed

lemma existing_rows_of_model_dump:
  "list_all valid_snapshot rows \<Longrightarrow>
   existing_rows_of (model_validate now) (map model_dump rows) = Inr rows"
  by (induction rows) (simp_all add: model_validate_model_dump)

text \<open>
  The comprehension succeeds exactly when every stored mapping validates, and then
  gives the validated rows in the stored order; when it fails, some mapping failed with
  that error.
\<close>

lemma existing_rows_of_eq_Inr:
  "existing_rows_of f ds = Inr rows \<longleftrightarrow> list_all2 (\<lambda>d row. f d = Inr row) ds rows"
proof (induction ds arbitrary: rows)
  case Nil
  show ?case by auto
next
  case (Cons d ds)
  show ?case
    by (cases rows) (auto simp: Cons.IH [symmetric] split: sum.splits)
qed





lemma pad_digits_numeral:
  "pad_digits (numeral k) n =
     digit_char (n div 10 ^ pred_numeral k mod 10) # pad_digits (pred_numeral k) n"
  by (simp only: numeral_eq_Suc [of k] pad_digits.simps)

lemma iso_t2: "isoformat t2 = ''2024-01-02T06:30:00.250000Z''"
  by (simp add: t2_def isoformat_def pad_digits_numeral digit_char_def)

lemma valid_examples:
  "valid_snapshot iphone_t1" "valid_snapshot iphone_t2"
  by (simp_all add: valid_snapshot_def valid_timestamp_def days_in_month_def iphone_t1_def
      iphone_t2_def t1_def t2_def)

lemma valid_more_examples:
  "valid_snapshot iphone_t2_relisted" "valid_snapshot iphone16_t1" "valid_snapshot iphone16_t2"
  by (simp_all add: valid_snapshot_def valid_timestamp_def days_in_month_def iphone_t1_def
      iphone_t2_relisted_def iphone16_t1_def iphone16_t2_def iphone_t2_def t1_def t2_def)

lemma dedupe_examples:
  "dedupe_snapshots [iphone_t1, iphone_t2] = [iphone_t1, iphone_t2]"
  "dedupe_snapshots [iphone_t2] = [iphone_t2]"
  by (simp_all add: dedupe_snapshots_def snapshot_key_def iphone_t1_def iphone_t2_def
      t1_def t2_def)

lemma dedupe_more_examples:
  "dedupe_snapshots [iphone_t1, iphone16_t1] = [iphone_t1, iphone16_t1]"
  "dedupe_snapshots [iphone_t2, iphone_t2_relisted, iphone16_t2] = [iphone_t2, iphone16_t2]"
  "dedupe_snapshots [iphone_t2, iphone16_t2] = [iphone_t2, iphone16_t2]"
  "dedupe_snapshots [iphone_t1, iphone16_t1, iphone_t2, iphone_t2_relisted, iphone16_t2] =
     [iphone_t1, iphone16_t1, iphone_t2, iphone16_t2]"
  "dedupe_snapshots [iphone_t1, iphone16_t1, iphone_t2, iphone16_t2] =
     [iphone_t1, iphone16_t1, iphone_t2, iphone16_t2]"
  by (simp_all add: dedupe_snapshots_def snapshot_key_def iphone_t1_def iphone_t2_def
      iphone_t2_relisted_def iphone16_t1_def iphone16_t2_def t1_def t2_def)

text \<open>
  C7. Serialisation round-trips: validating the field-for-field mapping of a snapshot
  gives the snapshot back, and the ISO-8601 text of its instant parses to that instant.
  The snapshot is one the model can construct: a non-empty key, a non-negative price and
  a calendar instant.
\<close>

theorem snapshot_round_trip:
  assumes "valid_snapshot P"
  shows "model_validate now (model_dump P) = Inr P \<and>
         fromisoformat (isoformat (scraped_at P)) = Some (scraped_at P)"
  using assms
  by (simp add: model_validate_model_dump fromisoformat_isoformat valid_snapshot_def)

theorem snapshot_round_trip_witness:
  "valid_snapshot iphone_t2 \<and>
   model_validate t1 (model_dump iphone_t2) = Inr iphone_t2 \<and>
   fromisoformat (isoformat (scraped_at iphone_t2)) = Some (scraped_at iphone_t2) \<and>
   isoformat (scraped_at iphone_t2) = ''2024-01-02T06:30:00.250000Z''"
proof -
  have v: "valid_snapshot iphone_t2" by (rule valid_examples)
  have "isoformat (scraped_at iphone_t2) = ''2024-01-02T06:30:00.250000Z''"
    by (simp add: iphone_t2_def iso_t2)
  with v snapshot_round_trip [OF v, of t1] show ?thesis by simp
qed

section \<open>Properties of the history store\<close>

lemma load_stored_history:
  assumes "files w p = Some (history_file rows)"
    and "list_all valid_snapshot rows"
  shows "load now p w = Inr rows"
proof -
  have "read_json_if_exists p w = Inr (map model_dump rows)"
    using assms(1)
    by (simp add: read_json_if_exists_def history_file_def is_object_def object_fields_def list_all_iff comp_def)
  with assms(2) show ?thesis
    by (simp add: load_def and_then_def existing_rows_of_model_dump)
qed

lemma load_eq_Inr:
  "load now p w = Inr rows \<longleftrightarrow>
     (\<exists>ds. read_json_if_exists p w = Inr ds \<and>
           existing_rows_of (model_validate now) ds = Inr rows)"
  by (auto simp: load_def and_then_def split: sum.splits)

lemma load_store_of:
  "list_all valid_snapshot rows \<Longrightarrow> load now ''history.json'' (store_of (history_file rows) ro) = Inr rows"
  by (rule load_stored_history) (simp_all add: store_of_def)

lemma read_store_of:
  "read_json_if_exists ''history.json'' (store_of (history_file rows) ro) =
     Inr (map model_dump rows)"
  by (simp add: read_json_if_exists_def store_of_def history_file_def is_object_def
      object_fields_def list_all_iff comp_def)

lemma write_store_of:
  "write_json ''history.json'' rows (store_of f {}) =
     (Inr (), \<lparr> files = [''history.json'' \<mapsto> history_file rows], locked = {} \<rparr>)"
  "write_csv ''history.csv'' rows \<lparr> files = fs, locked = {} \<rparr> =
     (Inr (), \<lparr> files = fs(''history.csv'' \<mapsto> table_file rows), locked = {} \<rparr>)"
  by (simp_all add: write_json_def write_csv_def put_file_def store_of_def)





section \<open>Properties of the pipeline\<close>

lemma recording_simps:
  "c_fetch (recording c) base_url (w, calls) =
     (case c_fetch c base_url w of (r, w') \<Rightarrow> (r, (w', calls @ [Call_fetch base_url])))"
  "c_read_json_if_exists (recording c) p (w, calls) =
     (case c_read_json_if_exists c p w of (r, w') \<Rightarrow> (r, (w', calls @ [Call_read_json p])))"
  "c_write_json (recording c) p rows (w, calls) =
     (case c_write_json c p rows w of (r, w') \<Rightarrow> (r, (w', calls @ [Call_write_json p rows])))"
  "c_write_csv (recording c) p rows (w, calls) =
     (case c_write_csv c p rows w of (r, w') \<Rightarrow> (r, (w', calls @ [Call_write_csv p rows])))"
  "c_dedupe_snapshots (recording c) = c_dedupe_snapshots c"
  "dict_to_snapshot (recording c) = dict_to_snapshot c"
  by (simp_all add: recording_def logged_def dict_to_snapshot_def fun_eq_iff)

text \<open>Recording changes nothing but the log: the outcome and the world are those of the run.\<close>

lemma recording_run:
  "run_pipeline (recording c) base_url out_csv out_json (w, calls) = (r, (w', calls')) \<Longrightarrow>
   run_pipeline c base_url out_csv out_json w = (r, w')"
  by (auto simp: run_pipeline_def recording_simps Let_def split: prod.splits sum.splits)

lemma store_env_simps:
  "c_fetch (store_env now cat) base_url w = (cat base_url, w)"
  "c_read_json_if_exists (store_env now cat) p w = (read_json_if_exists p w, w)"
  "c_dedupe_snapshots (store_env now cat) = dedupe_snapshots"
  "c_write_json (store_env now cat) = write_json"
  "c_write_csv (store_env now cat) = write_csv"
  "dict_to_snapshot (store_env now cat) = model_validate now"
  by (simp_all add: store_env_def dict_to_snapshot_def fun_eq_iff)

lemma run_pipeline_store_success:
  assumes "cat base_url = Inr F"
    and "load now out_json w = Inr H"
    and "out_json \<notin> locked w"
    and "out_csv \<notin> locked w"
  shows "run_pipeline (store_env now cat) base_url out_csv out_json w =
           (Inr (dedupe_snapshots (H @ F)),
            w\<lparr>files := (files w)
                (out_json \<mapsto> history_file (dedupe_snapshots (H @ F)),
                 out_csv \<mapsto> table_file (dedupe_snapshots (H @ F)))\<rparr>)"
proof -
  from assms(2) obtain ds where
    ds: "read_json_if_exists out_json w = Inr ds"
        "existing_rows_of (model_validate now) ds = Inr H"
    by (auto simp: load_eq_Inr)
  show ?thesis
    using assms(1,3,4) ds
    by (simp add: run_pipeline_def store_env_simps Let_def write_json_def write_csv_def
        put_file_def)
qed

lemma first_run_result:
  "first_run =
     (Inr [iphone_t1, iphone16_t1],
      \<lparr> files = [''history.json'' \<mapsto> history_file [iphone_t1, iphone16_t1],
                 ''history.csv'' \<mapsto> table_file [iphone_t1, iphone16_t1]],
        locked = {} \<rparr>)"
proof -
  have "load t1 ''history.json'' empty_store = Inr []"
    by (simp add: load_def read_json_if_exists_def and_then_def empty_store_def)
  from run_pipeline_store_success [of "catalog_of [iphone_t1, iphone16_t1]" catalog_url
      "[iphone_t1, iphone16_t1]" t1 "''history.json''" empty_store "[]" "''history.csv''", OF _ this]
  show ?thesis
    by (simp add: first_run_def catalog_of_def empty_store_def dedupe_more_examples)
qed

lemma load_first_run:
  "load now ''history.json'' (snd first_run) = Inr [iphone_t1, iphone16_t1]"
  by (rule load_stored_history)
     (simp_all add: first_run_result valid_examples valid_more_examples)

lemma run_recorded_two:
  "run_pipeline (recording (store_env t2 (catalog_of [iphone_t2, iphone_t2_relisted, iphone16_t2])))
     catalog_url ''history.csv'' ''history.json'' (snd first_run, []) =
   (Inr [iphone_t1, iphone16_t1, iphone_t2, iphone16_t2],
    (\<lparr> files = [''history.json'' \<mapsto> history_file [iphone_t1, iphone16_t1, iphone_t2, iphone16_t2],
                ''history.csv'' \<mapsto> table_file [iphone_t1, iphone16_t1, iphone_t2, iphone16_t2]],
       locked = {} \<rparr>,
     [Call_fetch catalog_url, Call_read_json ''history.json'',
      Call_write_json ''history.json'' [iphone_t1, iphone16_t1, iphone_t2, iphone16_t2],
      Call_write_csv ''history.csv'' [iphone_t1, iphone16_t1, iphone_t2, iphone16_t2]]))"
proof -
  have rd: "read_json_if_exists ''history.json''
        \<lparr> files = [''history.json'' \<mapsto> history_file [iphone_t1, iphone16_t1],
                    ''history.csv'' \<mapsto> table_file [iphone_t1, iphone16_t1]],
           locked = {} \<rparr> =
      Inr (map model_dump [iphone_t1, iphone16_t1])"
    by (simp add: read_json_if_exists_def history_file_def is_object_def object_fields_def)
  have twice: "[''history.json'' \<mapsto> a, ''history.csv'' \<mapsto> b, ''history.json'' \<mapsto> c,
        ''history.csv'' \<mapsto> d] = [''history.json'' \<mapsto> c, ''history.csv'' \<mapsto> d]"
    for a b c d :: stored_file
    by (auto simp: fun_eq_iff)
  show ?thesis
    unfolding first_run_result snd_conv
    by (simp add: run_pipeline_def recording_simps store_env_simps catalog_of_def rd
        model_validate_model_dump valid_examples valid_more_examples dedupe_more_examples
        write_json_def write_csv_def put_file_def Let_def twice)
qed

text \<open>
  C6. A run in which every operation succeeds calls, in this order and nothing else:
  the extractor's fetch, the load from \<open>out_json\<close>, the JSON write and then the CSV
  write. Every stored mapping is validated, in the stored order; both writes receive the
  deduplicated concatenation of all those existing rows followed by the new rows, and
  that merged sequence is what the run returns.
\<close>

theorem run_pipeline_sequence:
  assumes "c_fetch c base_url w0 = (Inr new_rows, w1)"
    and "c_read_json_if_exists c out_json w1 = (Inr existing_dicts, w2)"
    and "list_all2 (\<lambda>d row. c_model_validate c d = Inr row) existing_dicts existing_rows"
    and "merged = c_dedupe_snapshots c (existing_rows @ new_rows)"
    and "c_write_json c out_json merged w2 = (Inr (), w3)"
    and "c_write_csv c out_csv merged w3 = (Inr (), w4)"
  shows "run_pipeline (recording c) base_url out_csv out_json (w0, []) =
           (Inr merged,
            (w4, [Call_fetch base_url, Call_read_json out_json,
                  Call_write_json out_json merged, Call_write_csv out_csv merged]))"
proof -
  from assms(3) have "existing_rows_of (dict_to_snapshot c) existing_dicts = Inr existing_rows"
    by (simp add: existing_rows_of_eq_Inr dict_to_snapshot_def)
  with assms(1,2,4,5,6) show ?thesis
    by (simp add: run_pipeline_def recording_simps Let_def)
qed

theorem run_pipeline_sequence_witness:
  "run_pipeline (recording (store_env t2 (catalog_of [iphone_t2, iphone_t2_relisted, iphone16_t2])))
     catalog_url ''history.csv'' ''history.json'' (snd first_run, []) =
   (Inr [iphone_t1, iphone16_t1, iphone_t2, iphone16_t2],
    (\<lparr> files = [''history.json'' \<mapsto> history_file [iphone_t1, iphone16_t1, iphone_t2, iphone16_t2],
                ''history.csv'' \<mapsto> table_file [iphone_t1, iphone16_t1, iphone_t2, iphone16_t2]],
       locked = {} \<rparr>,
     [Call_fetch catalog_url, Call_read_json ''history.json'',
      Call_write_json ''history.json'' [iphone_t1, iphone16_t1, iphone_t2, iphone16_t2],
      Call_write_csv ''history.csv'' [iphone_t1, iphone16_t1, iphone_t2, iphone16_t2]]))"
proof (rule run_pipeline_sequence)
  let ?c = "store_env t2 (catalog_of [iphone_t2, iphone_t2_relisted, iphone16_t2])"
  show "c_fetch ?c catalog_url (snd first_run) =
      (Inr [iphone_t2, iphone_t2_relisted, iphone16_t2], snd first_run)"
    by (simp add: store_env_simps catalog_of_def)
  show "c_read_json_if_exists ?c ''history.json'' (snd first_run) =
      (Inr [model_dump iphone_t1, model_dump iphone16_t1], snd first_run)"
    by (simp add: store_env_simps first_run_result read_json_if_exists_def history_file_def
        is_object_def object_fields_def)
  show "list_all2 (\<lambda>d row. c_model_validate ?c d = Inr row)
      [model_dump iphone_t1, model_dump iphone16_t1] [iphone_t1, iphone16_t1]"
    by (simp add: store_env_def model_validate_model_dump valid_examples valid_more_examples)
  show "[iphone_t1, iphone16_t1, iphone_t2, iphone16_t2] =
      c_dedupe_snapshots ?c ([iphone_t1, iphone16_t1] @ [iphone_t2, iphone_t2_relisted, iphone16_t2])"
    by (simp add: store_env_simps dedupe_more_examples)
  show "c_write_json ?c ''history.json'' [iphone_t1, iphone16_t1, iphone_t2, iphone16_t2]
        (snd first_run) =
      (Inr (), \<lparr> files = [''history.json'' \<mapsto> history_file [iphone_t1, iphone16_t1, iphone_t2, iphone16_t2],
                          ''history.csv'' \<mapsto> table_file [iphone_t1, iphone16_t1]],
                 locked = {} \<rparr>)"
    by (auto simp: store_env_simps first_run_result write_json_def put_file_def fun_eq_iff)
  show "c_write_csv ?c ''history.csv'' [iphone_t1, iphone16_t1, iphone_t2, iphone16_t2]
        \<lparr> files = [''history.json'' \<mapsto> history_file [iphone_t1, iphone16_t1, iphone_t2, iphone16_t2],
                    ''history.csv'' \<mapsto> table_file [iphone_t1, iphone16_t1]],
           locked = {} \<rparr> =
      (Inr (), \<lparr> files = [''history.json'' \<mapsto> history_file [iphone_t1, iphone16_t1, iphone_t2, iphone16_t2],
                          ''history.csv'' \<mapsto> table_file [iphone_t1, iphone16_t1, iphone_t2, iphone16_t2]],
                 locked = {} \<rparr>)"
    by (simp add: store_env_simps write_csv_def put_file_def)
qed

text \<open>
  C2. When the fetch fails, or the load fails, or a stored record fails validation, the
  run ends with that very error, no write has been called, and the world is as the
  fetch and the load left it.
\<close>

theorem run_pipeline_aborts_before_write:
  "(c_fetch c base_url w0 = (Inl e, w1) \<longrightarrow>
      run_pipeline (recording c) base_url out_csv out_json (w0, []) =
        (Inl e, (w1, [Call_fetch base_url]))) \<and>
   (c_fetch c base_url w0 = (Inr new_rows, w1) \<and>
    c_read_json_if_exists c out_json w1 = (Inl e, w2) \<longrightarrow>
      run_pipeline (recording c) base_url out_csv out_json (w0, []) =
        (Inl e, (w2, [Call_fetch base_url, Call_read_json out_json]))) \<and>
   (c_fetch c base_url w0 = (Inr new_rows, w1) \<and>
    c_read_json_if_exists c out_json w1 = (Inr existing_dicts, w2) \<and>
    existing_rows_of (dict_to_snapshot c) existing_dicts = Inl e \<longrightarrow>
      run_pipeline (recording c) base_url out_csv out_json (w0, []) =
        (Inl e, (w2, [Call_fetch base_url, Call_read_json out_json])))"
  by (simp add: run_pipeline_def recording_simps Let_def)

theorem run_pipeline_aborts_before_write_witness:
  "run_pipeline (recording (store_env t2 catalog)) ''https://example.org/'' ''history.csv''
     ''history.json'' (store_of (history_file [iphone_t1]) {}, []) =
     (Inl (FetchError ''https://example.org/''),
      (store_of (history_file [iphone_t1]) {}, [Call_fetch ''https://example.org/''])) \<and>
   run_pipeline (recording (store_env t2 catalog)) catalog_url ''history.csv''
     ''history.json'' (store_of (Other_file ''<html>'') {}, []) =
     (Inl (CorruptStateError ''history.json''),
      (store_of (Other_file ''<html>'') {},
       [Call_fetch catalog_url, Call_read_json ''history.json''])) \<and>
   run_pipeline (recording (store_env t2 catalog)) catalog_url ''history.csv''
     ''history.json'' (store_of missing_key_file {}, []) =
     (Inl (ValidationError ''product_key''),
      (store_of missing_key_file {},
       [Call_fetch catalog_url, Call_read_json ''history.json'']))"
proof -
  let ?c = "store_env t2 catalog"
  have fetch_fails: "c_fetch ?c ''https://example.org/'' (store_of (history_file [iphone_t1]) {}) =
      (Inl (FetchError ''https://example.org/''), store_of (history_file [iphone_t1]) {})"
    by (simp add: store_env_simps catalog_def catalog_url_def)
  have fetch_ok: "c_fetch ?c catalog_url w = (Inr [iphone_t2], w)" for w
    by (simp add: store_env_simps catalog_def)
  have read_fails: "c_read_json_if_exists ?c ''history.json'' (store_of (Other_file ''<html>'') {}) =
      (Inl (CorruptStateError ''history.json''), store_of (Other_file ''<html>'') {})"
    by (simp add: store_env_simps read_json_if_exists_def store_of_def)
  have read_ok: "c_read_json_if_exists ?c ''history.json'' (store_of missing_key_file {}) =
      (Inr [[(''title'', JStr ''iPhone 15 128GB'')]], store_of missing_key_file {})"
    by (simp add: store_env_simps read_json_if_exists_def store_of_def missing_key_file_def
        is_object_def object_fields_def)
  have invalid: "existing_rows_of (dict_to_snapshot ?c) [[(''title'', JStr ''iPhone 15 128GB'')]] =
      Inl (ValidationError ''product_key'')"
    by (simp add: store_env_simps model_validate_def and_then_def required_key_def)
  from run_pipeline_aborts_before_write [of ?c "''https://example.org/''"
      "store_of (history_file [iphone_t1]) {}" "FetchError ''https://example.org/''"
      "store_of (history_file [iphone_t1]) {}" "''history.csv''" "''history.json''"]
    fetch_fails
  have a: "run_pipeline (recording ?c) ''https://example.org/'' ''history.csv''
     ''history.json'' (store_of (history_file [iphone_t1]) {}, []) =
     (Inl (FetchError ''https://example.org/''),
      (store_of (history_file [iphone_t1]) {}, [Call_fetch ''https://example.org/'']))"
    by blast
  from run_pipeline_aborts_before_write [of ?c catalog_url
      "store_of (Other_file ''<html>'') {}" "CorruptStateError ''history.json''"
      "store_of (Other_file ''<html>'') {}" "''history.csv''" "''history.json''"
      "[iphone_t2]" "store_of (Other_file ''<html>'') {}"]
    fetch_ok read_fails
  have b: "run_pipeline (recording ?c) catalog_url ''history.csv''
     ''history.json'' (store_of (Other_file ''<html>'') {}, []) =
     (Inl (CorruptStateError ''history.json''),
      (store_of (Other_file ''<html>'') {},
       [Call_fetch catalog_url, Call_read_json ''history.json'']))"
    by blast
  from run_pipeline_aborts_before_write [of ?c catalog_url
      "store_of missing_key_file {}" "ValidationError ''product_key''"
      "store_of missing_key_file {}" "''history.csv''" "''history.json''"
      "[iphone_t2]" "store_of missing_key_file {}" "[[(''title'', JStr ''iPhone 15 128GB'')]]"]
    fetch_ok read_ok invalid
  have c: "run_pipeline (recording ?c) catalog_url ''history.csv''
     ''history.json'' (store_of missing_key_file {}, []) =
     (Inl (ValidationError ''product_key''),
      (store_of missing_key_file {},
       [Call_fetch catalog_url, Call_read_json ''history.json'']))"
    by blast
  from a b c show ?thesis by blast
qed

text \<open>
  C10. In a run that succeeds, the history is read from \<open>out_json\<close>, every record
  of it is validated and put, in the stored order, ahead of the new rows, and the
  deduplicated result is written with \<open>write_json\<close> to that same path.
\<close>

theorem run_pipeline_history_in_place:
  assumes "run_pipeline (recording c) base_url out_csv out_json (w0, []) = (Inr merged, (w', calls))"
  shows "\<exists>new_rows w1 existing_dicts w2 existing_rows w3.
           c_fetch c base_url w0 = (Inr new_rows, w1) \<and>
           c_read_json_if_exists c out_json w1 = (Inr existing_dicts, w2) \<and>
           list_all2 (\<lambda>d row. c_model_validate c d = Inr row) existing_dicts existing_rows \<and>
           merged = c_dedupe_snapshots c (existing_rows @ new_rows) \<and>
           c_write_json c out_json merged w2 = (Inr (), w3) \<and>
           c_write_csv c out_csv merged w3 = (Inr (), w') \<and>
           calls = [Call_fetch base_url, Call_read_json out_json,
                  Call_write_json out_json merged, Call_write_csv out_csv merged]"
proof -
  from assms obtain new_rows w1 existing_dicts w2 existing_rows w3 where
    steps: "c_fetch c base_url w0 = (Inr new_rows, w1)"
      "c_read_json_if_exists c out_json w1 = (Inr existing_dicts, w2)"
      "existing_rows_of (dict_to_snapshot c) existing_dicts = Inr existing_rows"
      "merged = c_dedupe_snapshots c (existing_rows @ new_rows)"
      "c_write_json c out_json merged w2 = (Inr (), w3)"
      "c_write_csv c out_csv merged w3 = (Inr (), w')"
      "calls = [Call_fetch base_url, Call_read_json out_json,
                Call_write_json out_json merged, Call_write_csv out_csv merged]"
    by (auto simp: run_pipeline_def recording_simps Let_def split: prod.splits sum.splits)
  from steps(3)
  have "list_all2 (\<lambda>d row. c_model_validate c d = Inr row) existing_dicts existing_rows"
    by (simp add: existing_rows_of_eq_Inr dict_to_snapshot_def)
  with steps(1,2,4-7) show ?thesis by blast
qed

theorem run_pipeline_history_in_place_witness:
  "run_pipeline (recording (store_env t2 (catalog_of [iphone_t2, iphone_t2_relisted, iphone16_t2])))
     catalog_url ''history.csv'' ''history.json'' (snd first_run, []) =
     (Inr [iphone_t1, iphone16_t1, iphone_t2, iphone16_t2],
      (\<lparr> files = [''history.json'' \<mapsto> history_file [iphone_t1, iphone16_t1, iphone_t2, iphone16_t2],
                  ''history.csv'' \<mapsto> table_file [iphone_t1, iphone16_t1, iphone_t2, iphone16_t2]],
         locked = {} \<rparr>,
       [Call_fetch catalog_url, Call_read_json ''history.json'',
        Call_write_json ''history.json'' [iphone_t1, iphone16_t1, iphone_t2, iphone16_t2],
        Call_write_csv ''history.csv'' [iphone_t1, iphone16_t1, iphone_t2, iphone16_t2]])) \<and>
   files (snd first_run) ''history.json'' = Some (history_file [iphone_t1, iphone16_t1]) \<and>
   (\<exists>new_rows w1 existing_dicts w2 existing_rows w3.
     c_fetch (store_env t2 (catalog_of [iphone_t2, iphone_t2_relisted, iphone16_t2])) catalog_url
       (snd first_run) = (Inr new_rows, w1) \<and>
     c_read_json_if_exists (store_env t2 (catalog_of [iphone_t2, iphone_t2_relisted, iphone16_t2]))
       ''history.json'' w1 = (Inr existing_dicts, w2) \<and>
     list_all2
       (\<lambda>d row. c_model_validate (store_env t2 (catalog_of [iphone_t2, iphone_t2_relisted, iphone16_t2])) d =
          Inr row) existing_dicts existing_rows \<and>
     [iphone_t1, iphone16_t1, iphone_t2, iphone16_t2] =
       c_dedupe_snapshots (store_env t2 (catalog_of [iphone_t2, iphone_t2_relisted, iphone16_t2]))
         (existing_rows @ new_rows) \<and>
     c_write_json (store_env t2 (catalog_of [iphone_t2, iphone_t2_relisted, iphone16_t2]))
       ''history.json'' [iphone_t1, iphone16_t1, iphone_t2, iphone16_t2] w2 = (Inr (), w3))"
proof -
  have stored: "files (snd first_run) ''history.json'' = Some (history_file [iphone_t1, iphone16_t1])"
    by (simp add: first_run_result)
  from run_pipeline_history_in_place [OF run_recorded_two] run_recorded_two stored
  show ?thesis by blast
qed

subsection \<open>Runs on the history store\<close>

lemma run_csv_locked:
  "run_pipeline (store_env t2 catalog) catalog_url ''history.csv'' ''history.json''
     (store_of (history_file [iphone_t1]) {''history.csv''}) =
   (Inl (IOError ''history.csv''),
    \<lparr> files = [''history.json'' \<mapsto> history_file [iphone_t1, iphone_t2]],
      locked = {''history.csv''} \<rparr>)"
  by (simp add: run_pipeline_def store_env_simps read_store_of model_validate_model_dump
      valid_examples catalog_def dedupe_examples Let_def write_json_def write_csv_def put_file_def)
     (simp add: store_of_def)

lemma run_pipeline_store_result:
  assumes "fst (run_pipeline (store_env now cat) base_url out_csv out_json w) = Inr merged"
  shows "\<exists>H F. load now out_json w = Inr H \<and> cat base_url = Inr F \<and>
               merged = dedupe_snapshots (H @ F)"
  using assms
  by (auto simp: run_pipeline_def store_env_simps Let_def load_eq_Inr
      split: prod.splits sum.splits)

lemma run_result_key_distinct:
  "fst (run_pipeline (store_env now cat) base_url out_csv out_json w) = Inr H \<Longrightarrow>
   distinct (map snapshot_key H)"
  using run_pipeline_store_result [of now cat base_url out_csv out_json w H]
  by (auto simp: dedupe_snapshots_def dedupe_loop_distinct)

lemma second_run_result:
  "cat catalog_url = Inr F \<Longrightarrow>
   fst (run_pipeline (store_env now cat) catalog_url ''history.csv'' ''history.json''
          (snd first_run)) = Inr (dedupe_snapshots ([iphone_t1, iphone16_t1] @ F))"
  using run_pipeline_store_success [of cat catalog_url F now "''history.json''" "snd first_run"
      "[iphone_t1, iphone16_t1]" "''history.csv''"]
  by (simp add: load_first_run) (simp add: first_run_result)

text \<open>
  C1, as the code has it. When the CSV path cannot be written, the run raises that
  \<open>IOError\<close> after the JSON write has been done: the JSON file holds the merged
  history of this run, the deduplicated concatenation of the history it held and the
  fetch, and nothing puts the earlier content back.
\<close>

theorem csv_failure_keeps_new_json:
  assumes "cat base_url = Inr new_rows"
    and "load now out_json w = Inr existing_rows"
    and "out_json \<notin> locked w"
    and "out_csv \<in> locked w"
  shows "run_pipeline (store_env now cat) base_url out_csv out_json w =
           (Inl (IOError out_csv),
            w\<lparr>files := (files w)(out_json \<mapsto>
                 history_file (dedupe_snapshots (existing_rows @ new_rows)))\<rparr>)"
proof -
  from assms(2) obtain ds where
    ds: "read_json_if_exists out_json w = Inr ds"
        "existing_rows_of (model_validate now) ds = Inr existing_rows"
    by (auto simp: load_eq_Inr)
  show ?thesis
    using assms(1,3,4) ds
    by (simp add: run_pipeline_def store_env_simps Let_def write_json_def write_csv_def
        put_file_def)
qed

theorem csv_failure_keeps_new_json_witness:
  "run_pipeline (store_env t2 catalog) catalog_url ''history.csv'' ''history.json''
     (store_of (history_file [iphone_t1]) {''history.csv''}) =
   (Inl (IOError ''history.csv''),
    (store_of (history_file [iphone_t1]) {''history.csv''})
      \<lparr>files := (files (store_of (history_file [iphone_t1]) {''history.csv''}))
         (''history.json'' \<mapsto> history_file (dedupe_snapshots ([iphone_t1] @ [iphone_t2])))\<rparr>)"
  by (rule csv_failure_keeps_new_json)
     (simp_all add: catalog_def load_store_of valid_examples, simp_all add: store_of_def)

text \<open>
  Against C1 as the specification states it: the CSV write raises, and the JSON file
  has changed from one record to two.
\<close>

theorem csv_failure_counterexample:
  "fst (run_pipeline (store_env t2 catalog) catalog_url ''history.csv'' ''history.json''
          (store_of (history_file [iphone_t1]) {''history.csv''})) = Inl (IOError ''history.csv'') \<and>
   files (store_of (history_file [iphone_t1]) {''history.csv''}) ''history.json'' =
     Some (history_file [iphone_t1]) \<and>
   files (snd (run_pipeline (store_env t2 catalog) catalog_url ''history.csv'' ''history.json''
          (store_of (history_file [iphone_t1]) {''history.csv''}))) ''history.json'' =
     Some (history_file [iphone_t1, iphone_t2]) \<and>
   history_file [iphone_t1, iphone_t2] \<noteq> history_file [iphone_t1]"
  unfolding run_csv_locked by (simp add: store_of_def history_file_def)

text \<open>
  C3. Let \<open>H\<close> be an existing history: a sequence that a run has produced and that
  the store holds now. When no instant of the fetch \<open>F\<close> occurs in \<open>H\<close>, a run
  yields \<open>H\<close> followed by the first occurrences of each
  \<open>(product_key, scraped_at)\<close> pair of \<open>F\<close>; that is \<open>n + m\<close> records
  when \<open>F\<close> repeats no pair.
\<close>

theorem merge_growth:
  assumes "fst (run_pipeline (store_env now0 cat0) url0 csv0 json0 w0) = Inr H"
    and "load now out_json w = Inr H"
    and "cat base_url = Inr F"
    and "scraped_at ` set F \<inter> scraped_at ` set H = {}"
    and "fst (run_pipeline (store_env now cat) base_url out_csv out_json w) = Inr merged"
  shows "merged =
           H @ map ((!) F)
                 (filter (\<lambda>i. snapshot_key (F ! i) \<notin> snapshot_key ` set (take i F))
                    [0..<length F]) \<and>
         (distinct (map snapshot_key F) \<longrightarrow>
            merged = H @ F \<and> length merged = length H + length F)"
proof -
  from assms(1) have once: "distinct (map snapshot_key H)"
    by (rule run_result_key_distinct)
  from run_pipeline_store_result [OF assms(5)] assms(2,3)
  have "merged = dedupe_snapshots (H @ F)" by auto
  with assms(4) once have m: "merged = H @ dedupe_snapshots F"
    by (simp add: dedupe_snapshots_merge)
  have firsts: "dedupe_snapshots F =
      map ((!) F) (filter (\<lambda>i. snapshot_key (F ! i) \<notin> snapshot_key ` set (take i F))
        [0..<length F])"
    using dedupe_loop_first_occurrences [of snapshot_key "{}" F]
    by (simp add: dedupe_snapshots_def)
  have "distinct (map snapshot_key F) \<Longrightarrow> dedupe_snapshots F = F"
    unfolding dedupe_snapshots_def by (rule dedupe_loop_fixpoint) simp_all
  with m firsts show ?thesis by auto
qed

theorem merge_growth_witness:
  "fst first_run = Inr [iphone_t1, iphone16_t1] \<and>
   load t2 ''history.json'' (snd first_run) = Inr [iphone_t1, iphone16_t1] \<and>
   fst (run_pipeline (store_env t2 (catalog_of [iphone_t2, iphone16_t2])) catalog_url
          ''history.csv'' ''history.json'' (snd first_run)) =
     Inr [iphone_t1, iphone16_t1, iphone_t2, iphone16_t2] \<and>
   distinct (map snapshot_key [iphone_t2, iphone16_t2]) \<and>
   [iphone_t1, iphone16_t1, iphone_t2, iphone16_t2] =
     [iphone_t1, iphone16_t1] @ [iphone_t2, iphone16_t2] \<and>
   length [iphone_t1, iphone16_t1, iphone_t2, iphone16_t2] =
     length [iphone_t1, iphone16_t1] + length [iphone_t2, iphone16_t2] \<and>
   fst (run_pipeline (store_env t2 (catalog_of [iphone_t2, iphone_t2_relisted, iphone16_t2]))
          catalog_url ''history.csv'' ''history.json'' (snd first_run)) =
     Inr [iphone_t1, iphone16_t1, iphone_t2, iphone16_t2] \<and>
   \<not> distinct (map snapshot_key [iphone_t2, iphone_t2_relisted, iphone16_t2]) \<and>
   [iphone_t1, iphone16_t1, iphone_t2, iphone16_t2] =
     [iphone_t1, iphone16_t1] @
     map ((!) [iphone_t2, iphone_t2_relisted, iphone16_t2])
       (filter
          (\<lambda>i. snapshot_key ([iphone_t2, iphone_t2_relisted, iphone16_t2] ! i) \<notin>
               snapshot_key ` set (take i [iphone_t2, iphone_t2_relisted, iphone16_t2]))
          [0..<length [iphone_t2, iphone_t2_relisted, iphone16_t2]])"
proof -
  have produced: "fst (run_pipeline (store_env t1 (catalog_of [iphone_t1, iphone16_t1])) catalog_url
      ''history.csv'' ''history.json'' empty_store) = Inr [iphone_t1, iphone16_t1]"
    using first_run_result by (simp add: first_run_def)
  then have first: "fst first_run = Inr [iphone_t1, iphone16_t1]"
    by (simp add: first_run_def)
  have stored: "load t2 ''history.json'' (snd first_run) = Inr [iphone_t1, iphone16_t1]"
    by (rule load_first_run)
  have f1: "catalog_of [iphone_t2, iphone16_t2] catalog_url = Inr [iphone_t2, iphone16_t2]"
    and f2: "catalog_of [iphone_t2, iphone_t2_relisted, iphone16_t2] catalog_url =
      Inr [iphone_t2, iphone_t2_relisted, iphone16_t2]"
    by (simp_all add: catalog_of_def)
  have apart1: "scraped_at ` set [iphone_t2, iphone16_t2] \<inter>
      scraped_at ` set [iphone_t1, iphone16_t1] = {}"
    and apart2: "scraped_at ` set [iphone_t2, iphone_t2_relisted, iphone16_t2] \<inter>
      scraped_at ` set [iphone_t1, iphone16_t1] = {}"
    by (simp_all add: iphone_t1_def iphone_t2_def iphone_t2_relisted_def iphone16_t1_def
        iphone16_t2_def t1_def t2_def)
  have run1: "fst (run_pipeline (store_env t2 (catalog_of [iphone_t2, iphone16_t2])) catalog_url
          ''history.csv'' ''history.json'' (snd first_run)) =
     Inr [iphone_t1, iphone16_t1, iphone_t2, iphone16_t2]"
    using second_run_result [of "catalog_of [iphone_t2, iphone16_t2]" "[iphone_t2, iphone16_t2]" t2]
      f1
    by (simp add: dedupe_more_examples)
  have run2: "fst (run_pipeline (store_env t2 (catalog_of [iphone_t2, iphone_t2_relisted, iphone16_t2]))
          catalog_url ''history.csv'' ''history.json'' (snd first_run)) =
     Inr [iphone_t1, iphone16_t1, iphone_t2, iphone16_t2]"
    using second_run_result [of "catalog_of [iphone_t2, iphone_t2_relisted, iphone16_t2]"
        "[iphone_t2, iphone_t2_relisted, iphone16_t2]" t2] f2
    by (simp add: dedupe_more_examples)
  have once: "distinct (map snapshot_key [iphone_t2, iphone16_t2])"
    and twice: "\<not> distinct (map snapshot_key [iphone_t2, iphone_t2_relisted, iphone16_t2])"
    by (simp_all add: snapshot_key_def iphone_t1_def iphone_t2_def iphone_t2_relisted_def
        iphone16_t1_def iphone16_t2_def)
  from merge_growth [OF produced stored f1 apart1 run1] once
  have grown: "[iphone_t1, iphone16_t1, iphone_t2, iphone16_t2] =
        [iphone_t1, iphone16_t1] @ [iphone_t2, iphone16_t2] \<and>
      length [iphone_t1, iphone16_t1, iphone_t2, iphone16_t2] =
        length [iphone_t1, iphone16_t1] + length [iphone_t2, iphone16_t2]"
    by (rule conjunct2 [THEN mp])
  note firsts = merge_growth [OF produced stored f2 apart2 run2, THEN conjunct1]
  from first stored run1 once grown run2 twice firsts
  show ?thesis by blast
qed

section \<open>Properties of the fetch collaborator\<close>

text \<open>
  C9. \<open>get_html\<close> returns the body text of a response with a success status, raises
  \<open>HTTPStatusError\<close> on any other status, and passes on what the transport raises, a
  timeout included.
\<close>

theorem get_html_result:
  "(client_get headers timeout_s True url = Inr r \<and> is_success r \<longrightarrow>
      get_html client_get url timeout_s = Inr (response_text r)) \<and>
   (client_get headers timeout_s True url = Inr r \<and> \<not> is_success r \<longrightarrow>
      get_html client_get url timeout_s = Inl (HTTPStatusError (status_code r))) \<and>
   (client_get headers timeout_s True url = Inl e \<longrightarrow>
      get_html client_get url timeout_s = Inl e)"
  by (simp add: get_html_def raise_for_status_def)

theorem get_html_result_witness:
  "get_html (\<lambda>hs t redirects u. Inr \<lparr> status_code = 200, response_text = ''<html></html>'' \<rparr>)
     catalog_url (20 :: nat) = Inr ''<html></html>'' \<and>
   get_html (\<lambda>hs t redirects u. Inr \<lparr> status_code = 404, response_text = ''Not Found'' \<rparr>)
     catalog_url (20 :: nat) = Inl (HTTPStatusError 404) \<and>
   get_html (\<lambda>hs t redirects u. Inl TimeoutException) catalog_url (20 :: nat) =
     Inl TimeoutException"
  using get_html_result [of "\<lambda>hs t redirects u. Inr \<lparr> status_code = 200, response_text = ''<html></html>'' \<rparr>"
          "20 :: nat" catalog_url "\<lparr> status_code = 200, response_text = ''<html></html>'' \<rparr>"]
        get_html_result [of "\<lambda>hs t redirects u. Inr \<lparr> status_code = 404, response_text = ''Not Found'' \<rparr>"
          "20 :: nat" catalog_url "\<lparr> status_code = 404, response_text = ''Not Found'' \<rparr>"]
        get_html_result [of "\<lambda>hs t redirects u. Inl TimeoutException"
          "20 :: nat" catalog_url _ TimeoutException]
  by (simp add: is_success_def)

end
